theory Spec2Isabelle
  imports Complex_Main "HOL-Library.AList" "HOL-Library.Multiset"
begin

unbundle bit_operations_syntax

section \<open>Data model\<close>

text \<open>
  Exceptions of the Python code as values. \<open>ConfigurationError\<close> carries its message,
  so that the different configuration errors stay apart.
\<close>

datatype error =
    ConfigurationError string
  | AssertionError
  | KeyError
  | ValueError
  | IndexError
  | TypeError

text \<open>
  A global state identifier (\<open>StateId\<close>) is a tuple of integers, a cell (\<open>Cell\<close>) an
  index of the cell system. Floats are modelled by reals: the code below only stores,
  passes on and compares them.
\<close>

type_synonym StateId = "nat list"
type_synonym Cell = nat

text \<open>
  \<open>base.unit.Unit\<close>: identifier, position, and the optional charge dictionary,
  velocity and time stamp (\<open>None\<close> in Python is \<open>None\<close> here).
\<close>

record Unit =
  unit_identifier :: StateId
  position :: "real list"
  charge :: "(string \<rightharpoonup> real) option"
  velocity :: "real list option"
  time_stamp :: "real option"

text \<open>
  \<open>base.node.Node\<close>: a node holds a unit (\<open>node.value\<close>, here \<open>val\<close>) and owns
  its children in order.
\<close>

datatype Node = Node (val: Unit) (children: "Node list")

text \<open>
  Modelled from the spec: \<open>base.node.yield_nodes_on_level_below\<close>, whose module is not
  among the sources. The tracked depth is counted from the root node: level 0 below a
  node is the node itself, level \<open>n\<close> is level \<open>n - 1\<close> below each of its children, in
  order. A negative level is never reached by counting down and yields nothing.
\<close>

fun yield_nodes_on_level_below :: "Node \<Rightarrow> int \<Rightarrow> Node list" where
  "yield_nodes_on_level_below (Node v cs) level =
     (if level = 0 then [Node v cs]
      else concat (map (\<lambda>child. yield_nodes_on_level_below child (level - 1)) cs))"

text \<open>
  Modelled from the spec: \<open>base.node.yield_leaf_nodes\<close>; a leaf node has no children,
  and the leaves of a branch are generated in the order of the children.
\<close>

fun yield_leaf_nodes :: "Node \<Rightarrow> Node list" where
  "yield_leaf_nodes (Node v cs) =
     (if cs = [] then [Node v cs] else concat (map yield_leaf_nodes cs))"

text \<open>
  The cell system (\<open>Cells\<close>) is an opaque capability: the position-to-cell lookup and
  the enumeration of all cells.
\<close>

record Cells =
  position_to_cell :: "real list \<Rightarrow> Cell"
  yield_cells :: "Cell list"

section \<open>SingleActiveCellOccupancy\<close>

text \<open>
  The attributes of the class. The two dictionaries are association lists in insertion
  order (the order in which \<open>yield_surplus\<close> walks \<open>self._surplus.values()\<close>):
  \<open>map_of\<close> is the lookup, \<open>AList.update\<close> the item assignment (a new key goes to the
  end), \<open>AList.delete\<close> is \<open>del\<close>. The relevance predicate is stored as a function,
  as the constructor stores a lambda.
\<close>

record SingleActiveCellOccupancy =
  cells :: Cells
  cell_level :: int
  maximum_number_occupants :: int
  number_occupants_not_bounded :: bool
  surplus :: "(Cell \<times> StateId list) list"
  occupants :: "(Cell \<times> StateId list) list"
  active_unit_identifier :: "StateId option"
  is_relevant_unit :: "Unit \<Rightarrow> error + bool"
  active_cell :: "Cell option"

text \<open>
  The lambda \<open>lambda unit: unit.charge[charge] != 0\<close>: subscripting \<open>None\<close> raises a
  TypeError, a missing key a KeyError.
\<close>

definition charge_unequal_zero :: "string \<Rightarrow> Unit \<Rightarrow> error + bool" where
  "charge_unequal_zero c unit =
     (case charge unit of
        None \<Rightarrow> Inl TypeError
      | Some d \<Rightarrow> (case d c of None \<Rightarrow> Inl KeyError | Some q \<Rightarrow> Inr (q \<noteq> 0)))"

text \<open>
  The constructor \<open>__init__\<close>. \<open>setting.number_of_node_levels\<close> is a parameter.
  Modelled from the spec: the constructor of the base class \<open>CellOccupancy\<close>, which is
  not among the sources, keeps the cell system, the cell level and the maximum number of
  occupants, and a maximum smaller than or equal to zero means that the number of
  occupants is not bounded.
\<close>

definition init :: "int \<Rightarrow> Cells \<Rightarrow> int \<Rightarrow> int \<Rightarrow> string option
    \<Rightarrow> error + SingleActiveCellOccupancy" where
  "init number_of_node_levels cs level maximum ch =
     (if level < number_of_node_levels \<and> ch \<noteq> None
      then Inl (ConfigurationError
        ''Chosen cell level stores composite point objects which cannot have a charge!'')
      else Inr \<lparr> cells = cs, cell_level = level, maximum_number_occupants = maximum,
                 number_occupants_not_bounded = (maximum \<le> 0),
                 surplus = [],
                 occupants = foldl (\<lambda>d cell. AList.update cell [] d) [] (yield_cells cs),
                 active_unit_identifier = None,
                 is_relevant_unit =
                   (case ch of Some c \<Rightarrow> charge_unequal_zero c | None \<Rightarrow> (\<lambda>unit. Inr True)),
                 active_cell = None \<rparr>)"

text \<open>
  The units of the nodes on the cell level, over all root nodes of an extracted state
  (the two nested loops of \<open>initialize\<close> and the comprehension of \<open>update\<close>).
\<close>

definition units_on_cell_level :: "int \<Rightarrow> Node list \<Rightarrow> Unit list" where
  "units_on_cell_level level extracted_state =
     concat (map (\<lambda>root_cnode. map val (yield_nodes_on_level_below root_cnode (level - 1)))
       extracted_state)"

text \<open>
  The block that \<open>initialize\<close> (lines 117 to 121) and \<open>update\<close> (lines 178 to 182)
  share: append the identifier to the occupants of the cell if there is room or the
  number is not bounded, else to the surplus of the cell
  (\<open>setdefault(cell, []).append\<close>). \<open>self._occupants[cell]\<close> raises a KeyError for
  an unknown cell.
\<close>

definition store_identifier :: "SingleActiveCellOccupancy \<Rightarrow> Cell \<Rightarrow> StateId
    \<Rightarrow> error + SingleActiveCellOccupancy" where
  "store_identifier s cell ident =
     (case map_of (occupants s) cell of
        None \<Rightarrow> Inl KeyError
      | Some occ \<Rightarrow>
          if int (length occ) < maximum_number_occupants s \<or> number_occupants_not_bounded s
          then Inr (s\<lparr>occupants := AList.update cell (occ @ [ident]) (occupants s)\<rparr>)
          else Inr (s\<lparr>surplus := AList.update cell
                 ((case map_of (surplus s) cell of None \<Rightarrow> [] | Some sur \<Rightarrow> sur) @ [ident])
                 (surplus s)\<rparr>))"

text \<open>The loop body of \<open>initialize\<close>, over the units on the cell level.\<close>

fun initialize_units :: "SingleActiveCellOccupancy \<Rightarrow> Unit list
    \<Rightarrow> error + SingleActiveCellOccupancy" where
  "initialize_units s [] = Inr s"
| "initialize_units s (unit # units) =
     (case is_relevant_unit s unit of
        Inl e \<Rightarrow> Inl e
      | Inr relevant \<Rightarrow>
          if relevant
          then (case store_identifier s (position_to_cell (cells s) (position unit))
                       (unit_identifier unit) of
                  Inl e \<Rightarrow> Inl e
                | Inr s' \<Rightarrow> initialize_units s' units)
          else initialize_units s units)"

definition initialize :: "SingleActiveCellOccupancy \<Rightarrow> Node list
    \<Rightarrow> error + SingleActiveCellOccupancy" where
  "initialize s extracted_global_state =
     initialize_units s (units_on_cell_level (cell_level s) extracted_global_state)"

text \<open>\<open>__getitem__\<close>: the occupants of a cell; a KeyError for an unknown cell.\<close>

definition getitem :: "SingleActiveCellOccupancy \<Rightarrow> Cell \<Rightarrow> error + StateId list" where
  "getitem s internal_state_identifier =
     (case map_of (occupants s) internal_state_identifier of
        None \<Rightarrow> Inl KeyError
      | Some occ \<Rightarrow> Inr occ)"

text \<open>\<open>list.pop()\<close>: the last element and the rest; an IndexError on the empty list.\<close>

definition pop :: "'a list \<Rightarrow> error + ('a \<times> 'a list)" where
  "pop xs = (if xs = [] then Inl IndexError else Inr (last xs, butlast xs))"

text \<open>
  The truth value of \<open>self._surplus.get(cell, True)\<close>: \<open>True\<close> for a missing key, and a
  list is true when it is not empty.
\<close>

definition surplus_get_True :: "SingleActiveCellOccupancy \<Rightarrow> Cell \<Rightarrow> bool" where
  "surplus_get_True s cell =
     (case map_of (surplus s) cell of None \<Rightarrow> True | Some sur \<Rightarrow> sur \<noteq> [])"

text \<open>
  Lines 177 to 182 of \<open>update\<close>: the previous active identifier goes back into the
  occupancy system at the stored active cell.
\<close>

definition return_previous_active :: "SingleActiveCellOccupancy
    \<Rightarrow> error + SingleActiveCellOccupancy" where
  "return_previous_active s =
     (case active_unit_identifier s of
        None \<Rightarrow> Inr s
      | Some previous \<Rightarrow>
          (case active_cell s of
             None \<Rightarrow> Inl KeyError
           | Some cell \<Rightarrow> store_identifier s cell previous))"

text \<open>
  Lines 187 to 195 of \<open>update\<close>, the \<open>try\<close> statement: \<open>list.remove\<close> takes out the
  first occurrence and raises a ValueError when there is none, which the \<open>except\<close>
  clause catches; the KeyError and the IndexError are not caught.
\<close>

definition remove_new_active :: "SingleActiveCellOccupancy \<Rightarrow> Cell \<Rightarrow> StateId
    \<Rightarrow> error + SingleActiveCellOccupancy" where
  "remove_new_active s cell ident =
     (case map_of (occupants s) cell of
        None \<Rightarrow> Inl KeyError
      | Some occ \<Rightarrow>
          if ident \<in> set occ
          then
            (let occ' = remove1 ident occ;
                 s' = s\<lparr>occupants := AList.update cell occ' (occupants s)\<rparr>
             in if \<not> surplus_get_True s' cell
                then (case map_of (surplus s') cell of
                        None \<Rightarrow> Inl KeyError
                      | Some sur \<Rightarrow>
                          (case pop sur of
                             Inl e \<Rightarrow> Inl e
                           | Inr (promoted, sur') \<Rightarrow>
                               Inr (s'\<lparr>surplus := AList.update cell sur' (surplus s'),
                                       occupants := AList.update cell (occ' @ [promoted])
                                         (occupants s')\<rparr>)))
                else Inr s')
          else
            (case map_of (surplus s) cell of
               None \<Rightarrow> Inl KeyError
             | Some sur \<Rightarrow>
                 if ident \<in> set sur
                 then Inr (s\<lparr>surplus := AList.update cell (remove1 ident sur) (surplus s)\<rparr>)
                 else Inl ValueError))"

text \<open>Lines 185 to 198 of \<open>update\<close>: the new active unit is relevant.\<close>

definition track_new_active :: "SingleActiveCellOccupancy \<Rightarrow> Unit
    \<Rightarrow> error + SingleActiveCellOccupancy" where
  "track_new_active s new_active_unit =
     (let cell = position_to_cell (cells s) (position new_active_unit);
          s1 = s\<lparr>active_cell := Some cell,
                 active_unit_identifier := Some (unit_identifier new_active_unit)\<rparr>
      in case remove_new_active s1 cell (unit_identifier new_active_unit) of
           Inl e \<Rightarrow> Inl e
         | Inr s2 \<Rightarrow>
             if \<not> surplus_get_True s2 cell
             then Inr (s2\<lparr>surplus := AList.delete cell (surplus s2)\<rparr>)
             else Inr s2)"

text \<open>
  \<open>update\<close>. The assertion counts the units on the cell level, before the relevance
  predicate is asked. An identifier (a tuple) is never equal to \<open>None\<close>.
\<close>

definition update :: "SingleActiveCellOccupancy \<Rightarrow> Node list
    \<Rightarrow> error + SingleActiveCellOccupancy" where
  "update s extracted_active_global_state =
     (case units_on_cell_level (cell_level s) extracted_active_global_state of
        [new_active_unit] \<Rightarrow>
          if Some (unit_identifier new_active_unit) \<noteq> active_unit_identifier s
          then
            (case return_previous_active s of
               Inl e \<Rightarrow> Inl e
             | Inr s1 \<Rightarrow>
                 (case is_relevant_unit s1 new_active_unit of
                    Inl e \<Rightarrow> Inl e
                  | Inr relevant \<Rightarrow>
                      if relevant then track_new_active s1 new_active_unit
                      else Inr (s1\<lparr>active_unit_identifier := None, active_cell := None\<rparr>)))
          else Inr (s\<lparr>active_cell :=
                 Some (position_to_cell (cells s) (position new_active_unit))\<rparr>)
      | _ \<Rightarrow> Inl AssertionError)"

text \<open>\<open>yield_surplus\<close>: the surplus lists of all cells, one after the other.\<close>

definition yield_surplus :: "SingleActiveCellOccupancy \<Rightarrow> StateId list" where
  "yield_surplus s = concat (map snd (surplus s))"

text \<open>\<open>yield_active_cells\<close>: at most one pair of the active cell and identifier.\<close>

definition yield_active_cells :: "SingleActiveCellOccupancy \<Rightarrow> (Cell \<times> StateId option) list" where
  "yield_active_cells s =
     (case active_cell s of None \<Rightarrow> [] | Some cell \<Rightarrow> [(cell, active_unit_identifier s)])"

text \<open>A sequence of \<open>update\<close> calls; the run ends at the first exception.\<close>

fun updates :: "SingleActiveCellOccupancy \<Rightarrow> Node list list
    \<Rightarrow> error + SingleActiveCellOccupancy" where
  "updates s [] = Inr s"
| "updates s (extracted_active_global_state # rest) =
     (case update s extracted_active_global_state of
        Inl e \<Rightarrow> Inl e
      | Inr s' \<Rightarrow> updates s' rest)"

section \<open>FinalTimeEndOfRunEventHandler\<close>

text \<open>
  The attributes the class sets itself. The base-class constructors only take the name
  of the output handler.
\<close>

record FinalTimeEndOfRunEventHandler =
  event_time :: real
  output_handler :: "string option"

text \<open>The constructor: the end-of-run time has to be greater than zero.\<close>

definition final_time_init :: "real \<Rightarrow> string option
    \<Rightarrow> error + FinalTimeEndOfRunEventHandler" where
  "final_time_init end_of_run_time handler_name =
     (if \<not> end_of_run_time > 0
      then Inl (ConfigurationError ''The end_of_run_time in the event handler has to be > 0.0.'')
      else Inr \<lparr> event_time = end_of_run_time, output_handler = handler_name \<rparr>)"

text \<open>\<open>send_event_time\<close> takes no in-state and returns the stored event time.\<close>

definition final_time_send_event_time :: "FinalTimeEndOfRunEventHandler \<Rightarrow> real" where
  "final_time_send_event_time h = event_time h"

section \<open>LeafUnitCellVetoEventHandler\<close>

text \<open>
  The estimator is consulted for the number of charge arguments of its potential only.
  The handler keeps the charge, the function that computes the charges of two units, the
  stored state (branches), the leaf nodes and leaf units of the state and the index of
  the active leaf unit; attributes of the base classes that this class does not touch
  live in the extension of the record.
\<close>

record LeafUnitCellVetoEventHandler =
  handler_charge :: "string option"
  number_charge_arguments :: int
  charges :: "Unit \<Rightarrow> Unit \<Rightarrow> error + real list"
  state :: "Node list"
  leaf_cnodes :: "Node list"
  leaf_units :: "Unit list"
  active_leaf_unit_index :: int

text \<open>\<open>unit.charge[charge]\<close>, with the TypeError and the KeyError of the subscript.\<close>

definition unit_charge :: "string \<Rightarrow> Unit \<Rightarrow> error + real" where
  "unit_charge c unit =
     (case charge unit of
        None \<Rightarrow> Inl TypeError
      | Some d \<Rightarrow> (case d c of None \<Rightarrow> Inl KeyError | Some q \<Rightarrow> Inr q))"

text \<open>
  The constructor. Without a charge, the charges are as many \<open>1.0\<close> as the potential
  expects; with a charge, the potential has to expect exactly two.
\<close>

definition leaf_unit_cell_veto_init :: "int \<Rightarrow> string option
    \<Rightarrow> error + LeafUnitCellVetoEventHandler" where
  "leaf_unit_cell_veto_init potential_number_charge_arguments ch =
     (case ch of
        None \<Rightarrow>
          Inr \<lparr> handler_charge = None,
                number_charge_arguments = potential_number_charge_arguments,
                charges = (\<lambda>unit_one unit_two.
                  Inr (replicate (nat potential_number_charge_arguments) 1)),
                state = [], leaf_cnodes = [], leaf_units = [], active_leaf_unit_index = 0 \<rparr>
      | Some c \<Rightarrow>
          if potential_number_charge_arguments = 2
          then Inr \<lparr> handler_charge = Some c,
                number_charge_arguments = potential_number_charge_arguments,
                charges = (\<lambda>unit_one unit_two.
                  case unit_charge c unit_one of
                    Inl e \<Rightarrow> Inl e
                  | Inr q1 \<Rightarrow> (case unit_charge c unit_two of
                                 Inl e \<Rightarrow> Inl e
                               | Inr q2 \<Rightarrow> Inr [q1, q2])),
                state = [], leaf_cnodes = [], leaf_units = [], active_leaf_unit_index = 0 \<rparr>
          else Inl (ConfigurationError
            ''The event handler was initialized with a charge which is not None, but its potential expects not exactly 2 charges.''))"

text \<open>
  The subscript \<open>xs[i]\<close> of a Python list with an integer: an index from \<open>-len(xs)\<close>
  up to \<open>-1\<close> counts from the end, an index outside \<open>-len(xs) .. len(xs) - 1\<close>
  raises an IndexError.
\<close>

definition subscript :: "'a list \<Rightarrow> int \<Rightarrow> error + 'a" where
  "subscript xs i =
     (if 0 \<le> i \<and> i < int (length xs) then Inr (xs ! nat i)
      else if - int (length xs) \<le> i \<and> i < 0 then Inr (xs ! nat (int (length xs) + i))
      else Inl IndexError)"

text \<open>
  \<open>send_out_state\<close>. The periodic separation vector and the out-state computation of
  the base class are parameters. With \<open>None\<close> the stored state is returned as it is;
  otherwise the target branch and its leaves are appended, the two leaf units asserted
  and the out-state computed.
\<close>

definition leaf_unit_cell_veto_send_out_state ::
  "(real list \<Rightarrow> real list \<Rightarrow> real list)
   \<Rightarrow> ('a LeafUnitCellVetoEventHandler_scheme \<Rightarrow> real list \<Rightarrow> real list
        \<Rightarrow> error + 'a LeafUnitCellVetoEventHandler_scheme)
   \<Rightarrow> 'a LeafUnitCellVetoEventHandler_scheme \<Rightarrow> Node option
   \<Rightarrow> error + (Node list \<times> 'a LeafUnitCellVetoEventHandler_scheme)" where
  "leaf_unit_cell_veto_send_out_state separation_vector calculate_out_state h
       target_unit_root_cnode =
     (case target_unit_root_cnode of
        None \<Rightarrow> Inr (state h, h)
      | Some target \<Rightarrow>
          (let h1 = h\<lparr> state := state h @ [target],
                       leaf_cnodes := leaf_cnodes h @ yield_leaf_nodes target,
                       leaf_units := leaf_units h @ map val (yield_leaf_nodes target) \<rparr>
           in if length (leaf_units h1) \<noteq> 2 then Inl AssertionError
              else
                (case subscript (leaf_units h1) (active_leaf_unit_index h1) of
                   Inl e \<Rightarrow> Inl e
                 | Inr active_unit \<Rightarrow>
                     (case subscript (leaf_units h1) (active_leaf_unit_index h1 XOR 1) of
                        Inl e \<Rightarrow> Inl e
                      | Inr target_unit \<Rightarrow>
                          (case charges h1 (leaf_units h1 ! 0) (leaf_units h1 ! 1) of
                             Inl e \<Rightarrow> Inl e
                           | Inr cs \<Rightarrow>
                               (case calculate_out_state h1
                                       (separation_vector (position active_unit)
                                          (position target_unit)) cs of
                                  Inl e \<Rightarrow> Inl e
                                | Inr h2 \<Rightarrow> Inr (state h2, h2)))))))"

section \<open>End-of-chain event handler\<close>

text \<open>
  Modelled from the spec: the end-of-chain event handler
  (\<open>SingleIndependentActivePeriodicDirectionEndOfChainEventHandler\<close>), whose module is not
  among the sources; its unit tests are. The handler is constructed with a chain time
  greater than zero. Its candidate event times advance by the chain time (0.7, 1.4, 2.1
  for the chain time 0.7 of the tests). \<open>send_event_time\<close> receives the branch of the one
  active unit and the newly sampled identifier: the unit has to carry a time stamp, and
  the time stamp has to lie in the closed interval from the previous candidate time to
  the next one, by assertion. It returns the next candidate time with the nominated
  identifier and keeps the candidate time.
\<close>

record EndOfChainEventHandler =
  chain_time :: real
  candidate_time :: real

definition end_of_chain_init :: "real \<Rightarrow> error + EndOfChainEventHandler" where
  "end_of_chain_init chain =
     (if \<not> chain > 0 then Inl (ConfigurationError ''The chain_time has to be > 0.0.'')
      else Inr \<lparr> chain_time = chain, candidate_time = 0 \<rparr>)"

definition end_of_chain_send_event_time :: "EndOfChainEventHandler \<Rightarrow> Node list \<Rightarrow> StateId
    \<Rightarrow> error + ((real \<times> StateId list list) \<times> EndOfChainEventHandler)" where
  "end_of_chain_send_event_time h in_state sampled_identifier =
     (case in_state of
        [active_cnode] \<Rightarrow>
          (case time_stamp (val active_cnode) of
             None \<Rightarrow> Inl AssertionError
           | Some stamp \<Rightarrow>
               (let next_time = candidate_time h + chain_time h
                in if candidate_time h \<le> stamp \<and> stamp \<le> next_time
                   then Inr ((next_time, [[sampled_identifier]]), h\<lparr>candidate_time := next_time\<rparr>)
                   else Inl AssertionError))
      | _ \<Rightarrow> Inl AssertionError)"

section \<open>Notions for the invariants\<close>

text \<open>
  The identifiers stored in the occupants and the surplus lists of all cells, as a
  multiset; with the active identifier added, the tracked identifiers. The relevant
  identifiers of an extracted global state are the identifiers of its units on the cell
  level for which the relevance predicate returns true. Two occupancies have the same
  configuration when they agree on the attributes that the constructor fixes. An
  occupancy is well formed when the keys of the surplus dictionary are distinct, every
  occupants list respects the maximum, and there is no surplus when the number of
  occupants is not bounded.
\<close>

definition stored_identifiers :: "SingleActiveCellOccupancy \<Rightarrow> StateId multiset" where
  "stored_identifiers s = mset (concat (map snd (occupants s))) + mset (yield_surplus s)"

definition tracked_identifiers :: "SingleActiveCellOccupancy \<Rightarrow> StateId multiset" where
  "tracked_identifiers s =
     stored_identifiers s + (case active_unit_identifier s of None \<Rightarrow> {#} | Some a \<Rightarrow> {#a#})"

definition relevant_identifiers :: "SingleActiveCellOccupancy \<Rightarrow> Node list \<Rightarrow> StateId list" where
  "relevant_identifiers s extracted_global_state =
     map unit_identifier (filter (\<lambda>unit. is_relevant_unit s unit = Inr True)
       (units_on_cell_level (cell_level s) extracted_global_state))"

definition same_configuration :: "SingleActiveCellOccupancy \<Rightarrow> SingleActiveCellOccupancy \<Rightarrow> bool" where
  "same_configuration s s' \<longleftrightarrow>
     cells s' = cells s \<and> cell_level s' = cell_level s \<and>
     maximum_number_occupants s' = maximum_number_occupants s \<and>
     number_occupants_not_bounded s' = number_occupants_not_bounded s \<and>
     is_relevant_unit s' = is_relevant_unit s"

definition capacity_respected :: "SingleActiveCellOccupancy \<Rightarrow> bool" where
  "capacity_respected s \<longleftrightarrow>
     list_all (\<lambda>(cell, occ). number_occupants_not_bounded s \<or>
        int (length occ) \<le> maximum_number_occupants s) (occupants s)"

definition well_formed :: "SingleActiveCellOccupancy \<Rightarrow> bool" where
  "well_formed s \<longleftrightarrow>
     distinct (map fst (surplus s)) \<and> capacity_respected s \<and>
     (if number_occupants_not_bounded s then surplus s = [] else True)"

section \<open>Example inputs\<close>

text \<open>
  A cell system with the single cell 0; units without charge and velocity, moving units,
  units with a charge and units with a time stamp; a global state of three root units;
  the occupancy with at most one occupant per cell after \<open>initialize\<close> on that state
  (the first unit occupies cell 0, the other two are its surplus), the same without a
  bound on the occupants, and an occupancy that only stores units whose charge
  \<open>''charge''\<close> is not zero.
\<close>

definition example_cells :: Cells where
  "example_cells = \<lparr> position_to_cell = (\<lambda>p. 0), yield_cells = [0] \<rparr>"

definition example_unit :: "nat \<Rightarrow> Unit" where
  "example_unit n = \<lparr> unit_identifier = [n], position = [1 / 2], charge = None,
     velocity = None, time_stamp = None \<rparr>"

definition example_global_state :: "Node list" where
  "example_global_state =
     [Node (example_unit 0) [], Node (example_unit 1) [], Node (example_unit 2) []]"

definition example_occupancy :: SingleActiveCellOccupancy where
  "example_occupancy = \<lparr> cells = example_cells, cell_level = 1, maximum_number_occupants = 1,
     number_occupants_not_bounded = False, surplus = [(0, [[1], [2]])], occupants = [(0, [[0]])],
     active_unit_identifier = None, is_relevant_unit = (\<lambda>unit. Inr True), active_cell = None \<rparr>"

definition example_unbounded :: SingleActiveCellOccupancy where
  "example_unbounded = example_occupancy\<lparr> maximum_number_occupants := 0,
     number_occupants_not_bounded := True, surplus := [], occupants := [(0, [[0], [1], [2]])] \<rparr>"

definition example_moving_unit :: "nat \<Rightarrow> Unit" where
  "example_moving_unit n = (example_unit n)\<lparr> velocity := Some [1], time_stamp := Some 0 \<rparr>"

definition example_moving_state :: "Node list" where
  "example_moving_state = [Node (example_moving_unit 0) [], Node (example_unit 1) []]"

definition example_charged_unit :: "nat \<Rightarrow> real \<Rightarrow> Unit" where
  "example_charged_unit n q = (example_unit n)\<lparr> charge := Some [''charge'' \<mapsto> q] \<rparr>"

definition example_charged_state :: "Node list" where
  "example_charged_state =
     [Node (example_charged_unit 0 0) [], Node (example_charged_unit 1 1) []]"

definition example_charged_occupancy :: SingleActiveCellOccupancy where
  "example_charged_occupancy = example_occupancy\<lparr> surplus := [], occupants := [(0, [[1]])],
     is_relevant_unit := charge_unequal_zero ''charge'' \<rparr>"

definition example_stamped_unit :: "nat \<Rightarrow> real \<Rightarrow> Unit" where
  "example_stamped_unit n stamp =
     (example_unit n)\<lparr> velocity := Some [1], time_stamp := Some stamp \<rparr>"

section \<open>Properties\<close>

subsection \<open>Evaluation of the example\<close>

lemma units_on_cell_level_Nil: "units_on_cell_level level [] = []"
  by (simp add: units_on_cell_level_def)

lemma units_on_cell_level_root:
  "units_on_cell_level 1 (Node unit cs # rest) = unit # units_on_cell_level 1 rest"
  by (simp add: units_on_cell_level_def)

lemma init_example:
  "init 1 example_cells 1 1 None = Inr (example_occupancy\<lparr>surplus := [], occupants := [(0, [])]\<rparr>)"
  by (simp add: init_def example_cells_def example_occupancy_def)

lemma initialize_example:
  "initialize (example_occupancy\<lparr>surplus := [], occupants := [(0, [])]\<rparr>)
     example_global_state = Inr example_occupancy"
  by (simp add: initialize_def example_global_state_def example_occupancy_def example_cells_def example_unit_def
      store_identifier_def units_on_cell_level_Nil units_on_cell_level_root)

lemma update_example:
  "update example_occupancy [Node (example_unit 0) []] =
     Inr (example_occupancy\<lparr>occupants := [(0, [])], active_unit_identifier := Some [0],
        active_cell := Some 0\<rparr>)"
  by (simp add: units_on_cell_level_Nil units_on_cell_level_root update_def example_occupancy_def example_cells_def example_unit_def
      return_previous_active_def track_new_active_def remove_new_active_def
      surplus_get_True_def Let_def)


subsection \<open>Association lists and the steps of the occupancy\<close>

lemma alist_update_mset_Some:
  "map_of al k = Some old \<Longrightarrow>
   mset (concat (map snd (AList.update k v al))) + mset old = mset (concat (map snd al)) + mset v"
  by (induction al) (auto split: if_splits)

lemma alist_update_concat_None:
  "map_of al k = None \<Longrightarrow> concat (map snd (AList.update k v al)) = concat (map snd al) @ v"
  by (induction al) (auto split: if_splits)

lemma alist_delete_mset:
  "distinct (map fst al) \<Longrightarrow> map_of al k = Some v \<Longrightarrow>
   mset (concat (map snd (AList.delete k al))) + mset v = mset (concat (map snd al))"
  by (induction al) (auto split: if_splits simp: rev_image_eqI)

lemma alist_update_set: "set (AList.update k v al) \<subseteq> insert (k, v) (set al)"
  by (induction al) auto

lemma store_identifier_configuration:
  "store_identifier s cell ident = Inr s' \<Longrightarrow> same_configuration s s'"
  by (auto simp: store_identifier_def same_configuration_def split: option.splits if_splits)

lemma store_identifier_active:
  "store_identifier s cell ident = Inr s' \<Longrightarrow>
   active_unit_identifier s' = active_unit_identifier s \<and> active_cell s' = active_cell s"
  by (auto simp: store_identifier_def split: option.splits if_splits)

lemma alist_append_mset:
  assumes "map_of al k = Some old"
  shows "mset (concat (map snd (AList.update k (old @ [x]) al))) =
         add_mset x (mset (concat (map snd al)))"
  using alist_update_mset_Some [OF assms, of "old @ [x]"] by simp

lemma alist_remove1_mset:
  assumes "map_of al k = Some old" and "x \<in> set old"
  shows "add_mset x (mset (concat (map snd (AList.update k (remove1 x old) al)))) =
         mset (concat (map snd al))"
proof -
  let ?M = "mset (concat (map snd (AList.update k (remove1 x old) al)))"
  let ?R = "mset (remove1 x old)"
  have old: "mset old = add_mset x ?R"
    using assms(2) by simp
  have "?M + mset old = mset (concat (map snd al)) + ?R"
    by (rule alist_update_mset_Some [OF assms(1)])
  then have "add_mset x ?M + ?R = mset (concat (map snd al)) + ?R"
    by (simp only: old union_mset_add_mset_left union_mset_add_mset_right)
  then show ?thesis
    by (simp only: add_right_cancel)
qed

lemma store_identifier_stored:
  "store_identifier s cell ident = Inr s' \<Longrightarrow>
   stored_identifiers s' = stored_identifiers s + {#ident#}"
  by (auto simp: store_identifier_def stored_identifiers_def yield_surplus_def
      alist_append_mset alist_update_concat_None split: option.splits if_splits)

lemma list_all_alist_update:
  "list_all P al \<Longrightarrow> P (k, v) \<Longrightarrow> list_all P (AList.update k v al)"
  by (induction al) auto

lemma map_of_list_all: "list_all P al \<Longrightarrow> map_of al k = Some v \<Longrightarrow> P (k, v)"
  by (induction al) (auto split: if_splits)

lemma store_identifier_well_formed:
  assumes "store_identifier s cell ident = Inr s'" and "well_formed s"
  shows "well_formed s'"
proof -
  obtain occ where occ: "map_of (occupants s) cell = Some occ"
    using assms(1) by (auto simp: store_identifier_def split: option.splits)
  show ?thesis
  proof (cases "int (length occ) < maximum_number_occupants s \<or> number_occupants_not_bounded s")
    case True
    then have s': "s' = s\<lparr>occupants := AList.update cell (occ @ [ident]) (occupants s)\<rparr>"
      using assms(1) occ by (auto simp: store_identifier_def)
    have "list_all (\<lambda>(cell, occ). number_occupants_not_bounded s \<or>
        int (length occ) \<le> maximum_number_occupants s)
        (AList.update cell (occ @ [ident]) (occupants s))"
      using assms(2) True
      by (intro list_all_alist_update) (auto simp: well_formed_def capacity_respected_def)
    then show ?thesis
      using assms(2) by (simp add: s' well_formed_def capacity_respected_def)
  next
    case False
    then have s': "s' = s\<lparr>surplus := AList.update cell
                 ((case map_of (surplus s) cell of None \<Rightarrow> [] | Some sur \<Rightarrow> sur) @ [ident])
                 (surplus s)\<rparr>"
      using assms(1) occ by (auto simp: store_identifier_def)
    show ?thesis
      using assms(2) False
      by (simp add: s' well_formed_def capacity_respected_def distinct_update)
  qed
qed

lemma return_previous_active_configuration:
  "return_previous_active s = Inr s' \<Longrightarrow> same_configuration s s'"
  by (auto simp: return_previous_active_def same_configuration_def
      dest: store_identifier_configuration split: option.splits)

lemma return_previous_active_well_formed:
  "return_previous_active s = Inr s' \<Longrightarrow> well_formed s \<Longrightarrow> well_formed s'"
  by (auto simp: return_previous_active_def dest: store_identifier_well_formed
      split: option.splits)

lemma return_previous_active_active:
  "return_previous_active s = Inr s' \<Longrightarrow>
   active_unit_identifier s' = active_unit_identifier s \<and> active_cell s' = active_cell s"
  by (auto simp: return_previous_active_def dest: store_identifier_active
      split: option.splits)

lemma return_previous_active_stored:
  "return_previous_active s = Inr s' \<Longrightarrow> stored_identifiers s' = tracked_identifiers s"
  by (auto simp: return_previous_active_def tracked_identifiers_def
      dest: store_identifier_stored split: option.splits)

lemma surplus_get_True_occupants:
  "surplus_get_True (s\<lparr>occupants := x\<rparr>) cell = surplus_get_True s cell"
  by (simp add: surplus_get_True_def)

lemma promotion_fails:
  "\<not> surplus_get_True s cell \<Longrightarrow>
   (case map_of (surplus s) cell of
      None \<Rightarrow> Inl KeyError
    | Some sur \<Rightarrow> (case pop sur of Inl e \<Rightarrow> Inl e | Inr (promoted, sur') \<Rightarrow> Inr (f promoted sur')))
   = Inl IndexError"
  by (simp add: surplus_get_True_def pop_def split: option.splits)

lemma remove_new_active_present:
  assumes "map_of (occupants s) cell = Some occ" and "ident \<in> set occ"
  shows "remove_new_active s cell ident =
     (if surplus_get_True s cell
      then Inr (s\<lparr>occupants := AList.update cell (remove1 ident occ) (occupants s)\<rparr>)
      else Inl IndexError)"
proof (cases "surplus_get_True s cell")
  case True
  then show ?thesis
    using assms by (simp add: remove_new_active_def Let_def surplus_get_True_occupants)
next
  case False
  then have "\<not> surplus_get_True
      (s\<lparr>occupants := AList.update cell (remove1 ident occ) (occupants s)\<rparr>) cell"
    by (simp add: surplus_get_True_occupants)
  from promotion_fails [OF this] show ?thesis
    using assms False by (simp add: remove_new_active_def Let_def surplus_get_True_occupants)
qed

lemma remove_new_active_absent:
  assumes "map_of (occupants s) cell = Some occ" and "ident \<notin> set occ"
  shows "remove_new_active s cell ident =
     (case map_of (surplus s) cell of
        None \<Rightarrow> Inl KeyError
      | Some sur \<Rightarrow>
          if ident \<in> set sur
          then Inr (s\<lparr>surplus := AList.update cell (remove1 ident sur) (surplus s)\<rparr>)
          else Inl ValueError)"
  using assms by (simp add: remove_new_active_def)

lemma remove_new_active_cases:
  assumes "remove_new_active s cell ident = Inr s'"
  shows "(\<exists>occ. map_of (occupants s) cell = Some occ \<and> ident \<in> set occ \<and>
            surplus_get_True s cell \<and>
            s' = s\<lparr>occupants := AList.update cell (remove1 ident occ) (occupants s)\<rparr>) \<or>
         (\<exists>occ sur. map_of (occupants s) cell = Some occ \<and> ident \<notin> set occ \<and>
            map_of (surplus s) cell = Some sur \<and> ident \<in> set sur \<and>
            s' = s\<lparr>surplus := AList.update cell (remove1 ident sur) (surplus s)\<rparr>)"
proof (cases "map_of (occupants s) cell")
  case None
  then show ?thesis using assms by (simp add: remove_new_active_def)
next
  case (Some occ)
  show ?thesis
  proof (cases "ident \<in> set occ")
    case True
    from assms show ?thesis
      unfolding remove_new_active_present [OF Some True]
      using Some True by (simp split: if_splits)
  next
    case False
    from assms show ?thesis
      unfolding remove_new_active_absent [OF Some False]
      using Some False by (simp split: option.splits if_splits)
  qed
qed

lemma remove_new_active_configuration:
  "remove_new_active s cell ident = Inr s' \<Longrightarrow> same_configuration s s'"
  by (drule remove_new_active_cases) (auto simp: same_configuration_def)

lemma remove_new_active_active:
  "remove_new_active s cell ident = Inr s' \<Longrightarrow>
   active_unit_identifier s' = active_unit_identifier s \<and> active_cell s' = active_cell s"
  by (drule remove_new_active_cases) auto

lemma remove_new_active_stored:
  "remove_new_active s cell ident = Inr s' \<Longrightarrow>
   add_mset ident (stored_identifiers s') = stored_identifiers s"
  by (drule remove_new_active_cases)
     (auto simp: stored_identifiers_def yield_surplus_def alist_remove1_mset)

lemma list_all_alist_update_shorter:
  "list_all (\<lambda>(c, l). b \<or> int (length l) \<le> m) al \<Longrightarrow> map_of al k = Some old \<Longrightarrow>
   length v \<le> length old \<Longrightarrow> list_all (\<lambda>(c, l). b \<or> int (length l) \<le> m) (AList.update k v al)"
  by (induction al) (auto split: if_splits)

lemma remove_new_active_well_formed:
  assumes "remove_new_active s cell ident = Inr s'" and "well_formed s"
  shows "well_formed s'"
  using remove_new_active_cases [OF assms(1)]
proof (elim disjE exE conjE)
  fix occ
  assume occ: "map_of (occupants s) cell = Some occ"
    and s': "s' = s\<lparr>occupants := AList.update cell (remove1 ident occ) (occupants s)\<rparr>"
  have "list_all (\<lambda>(c, l). number_occupants_not_bounded s \<or>
          int (length l) \<le> maximum_number_occupants s)
          (AList.update cell (remove1 ident occ) (occupants s))"
    using assms(2) occ
    by (intro list_all_alist_update_shorter [where old = occ])
       (simp_all add: well_formed_def capacity_respected_def length_remove1)
  then show ?thesis
    using assms(2) by (simp add: s' well_formed_def capacity_respected_def)
next
  fix occ sur
  assume "s' = s\<lparr>surplus := AList.update cell (remove1 ident sur) (surplus s)\<rparr>"
    and "map_of (surplus s) cell = Some sur"
  then show ?thesis
    using assms(2)
    by (auto simp: well_formed_def capacity_respected_def distinct_update split: if_splits)
qed

lemma track_new_active_cases:
  assumes "track_new_active s u = Inr s'"
  shows "\<exists>s2. remove_new_active
            (s\<lparr>active_cell := Some (position_to_cell (cells s) (position u)),
               active_unit_identifier := Some (unit_identifier u)\<rparr>)
            (position_to_cell (cells s) (position u)) (unit_identifier u) = Inr s2 \<and>
          (s' = s2 \<or>
           (map_of (surplus s2) (position_to_cell (cells s) (position u)) = Some [] \<and>
            s' = s2\<lparr>surplus := AList.delete (position_to_cell (cells s) (position u))
                   (surplus s2)\<rparr>))"
  using assms
  by (auto simp: track_new_active_def Let_def surplus_get_True_def
      split: sum.splits if_splits option.splits)

lemma track_new_active_configuration:
  "track_new_active s u = Inr s' \<Longrightarrow> same_configuration s s'"
  by (drule track_new_active_cases)
     (auto dest!: remove_new_active_configuration simp: same_configuration_def)

lemma track_new_active_active:
  "track_new_active s u = Inr s' \<Longrightarrow>
   active_unit_identifier s' = Some (unit_identifier u) \<and>
   active_cell s' = Some (position_to_cell (cells s) (position u))"
  by (drule track_new_active_cases) (auto dest!: remove_new_active_active)

lemma track_new_active_well_formed:
  assumes "track_new_active s u = Inr s'" and "well_formed s"
  shows "well_formed s'"
proof -
  let ?s1 = "s\<lparr>active_cell := Some (position_to_cell (cells s) (position u)),
               active_unit_identifier := Some (unit_identifier u)\<rparr>"
  have wf1: "well_formed ?s1"
    using assms(2) by (simp add: well_formed_def capacity_respected_def)
  from track_new_active_cases [OF assms(1)] obtain s2 where
    r: "remove_new_active ?s1 (position_to_cell (cells s) (position u)) (unit_identifier u) = Inr s2"
    and c: "s' = s2 \<or>
           (map_of (surplus s2) (position_to_cell (cells s) (position u)) = Some [] \<and>
            s' = s2\<lparr>surplus := AList.delete (position_to_cell (cells s) (position u))
                   (surplus s2)\<rparr>)"
    by blast
  have wf2: "well_formed s2"
    using remove_new_active_well_formed [OF r wf1] .
  from c show ?thesis
  proof
    assume "s' = s2" then show ?thesis using wf2 by simp
  next
    assume "map_of (surplus s2) (position_to_cell (cells s) (position u)) = Some [] \<and>
            s' = s2\<lparr>surplus := AList.delete (position_to_cell (cells s) (position u))
                   (surplus s2)\<rparr>"
    then show ?thesis
      using wf2 by (auto simp: well_formed_def capacity_respected_def distinct_delete split: if_splits)
  qed
qed

lemma track_new_active_stored:
  assumes "track_new_active s u = Inr s'" and "well_formed s"
  shows "add_mset (unit_identifier u) (stored_identifiers s') = stored_identifiers s"
proof -
  let ?s1 = "s\<lparr>active_cell := Some (position_to_cell (cells s) (position u)),
               active_unit_identifier := Some (unit_identifier u)\<rparr>"
  have wf1: "well_formed ?s1"
    using assms(2) by (simp add: well_formed_def capacity_respected_def)
  from track_new_active_cases [OF assms(1)] obtain s2 where
    r: "remove_new_active ?s1 (position_to_cell (cells s) (position u)) (unit_identifier u) = Inr s2"
    and c: "s' = s2 \<or>
           (map_of (surplus s2) (position_to_cell (cells s) (position u)) = Some [] \<and>
            s' = s2\<lparr>surplus := AList.delete (position_to_cell (cells s) (position u))
                   (surplus s2)\<rparr>)"
    by blast
  have wf2: "well_formed s2"
    using remove_new_active_well_formed [OF r wf1] .
  have st2: "add_mset (unit_identifier u) (stored_identifiers s2) = stored_identifiers s"
    using remove_new_active_stored [OF r] by (simp add: stored_identifiers_def yield_surplus_def)
  from c have "stored_identifiers s' = stored_identifiers s2"
  proof
    assume "s' = s2" then show ?thesis by simp
  next
    assume a: "map_of (surplus s2) (position_to_cell (cells s) (position u)) = Some [] \<and>
            s' = s2\<lparr>surplus := AList.delete (position_to_cell (cells s) (position u))
                   (surplus s2)\<rparr>"
    have "distinct (map fst (surplus s2))" using wf2 by (simp add: well_formed_def)
    from alist_delete_mset [OF this] a show ?thesis
      by (fastforce simp: stored_identifiers_def yield_surplus_def)
  qed
  with st2 show ?thesis by simp
qed

lemma same_configuration_refl: "same_configuration s s"
  by (simp add: same_configuration_def)

lemma same_configuration_trans:
  "same_configuration s s' \<Longrightarrow> same_configuration s' s'' \<Longrightarrow> same_configuration s s''"
  by (simp add: same_configuration_def)

lemma update_cases:
  assumes "update s extracted = Inr s'"
  shows "\<exists>u. units_on_cell_level (cell_level s) extracted = [u] \<and>
     ((active_unit_identifier s = Some (unit_identifier u) \<and>
       s' = s\<lparr>active_cell := Some (position_to_cell (cells s) (position u))\<rparr>) \<or>
      (active_unit_identifier s \<noteq> Some (unit_identifier u) \<and>
       (\<exists>s1. return_previous_active s = Inr s1 \<and>
          ((is_relevant_unit s1 u = Inr True \<and> track_new_active s1 u = Inr s') \<or>
           (is_relevant_unit s1 u = Inr False \<and>
            s' = s1\<lparr>active_unit_identifier := None, active_cell := None\<rparr>)))))"
proof -
  obtain u where u: "units_on_cell_level (cell_level s) extracted = [u]"
    using assms by (auto simp: update_def split: list.splits)
  show ?thesis
  proof (cases "active_unit_identifier s = Some (unit_identifier u)")
    case True
    then show ?thesis using assms u by (auto simp: update_def)
  next
    case False
    then have neq: "Some (unit_identifier u) \<noteq> active_unit_identifier s" by auto
    obtain s1 where s1: "return_previous_active s = Inr s1"
      using assms u neq by (cases "return_previous_active s") (simp_all add: update_def)
    obtain r where r: "is_relevant_unit s1 u = Inr r"
      using assms u neq s1 by (cases "is_relevant_unit s1 u") (simp_all add: update_def)
    show ?thesis
      using assms u neq s1 r False by (cases r) (simp_all add: update_def)
  qed
qed

lemma update_configuration:
  assumes "update s extracted = Inr s'"
  shows "same_configuration s s'"
  using update_cases [OF assms]
  by (auto dest!: return_previous_active_configuration track_new_active_configuration
      simp: same_configuration_def)

lemma well_formed_active_fields:
  "well_formed (s\<lparr>active_unit_identifier := a, active_cell := c\<rparr>) = well_formed s"
  "well_formed (s\<lparr>active_cell := c\<rparr>) = well_formed s"
  "well_formed (s\<lparr>active_unit_identifier := a\<rparr>) = well_formed s"
  by (simp_all add: well_formed_def capacity_respected_def)

lemma update_well_formed:
  assumes "update s extracted = Inr s'" and "well_formed s"
  shows "well_formed s'"
  using update_cases [OF assms(1)] assms(2)
  by (auto simp: well_formed_active_fields
      dest: return_previous_active_well_formed track_new_active_well_formed)

lemma update_tracked:
  assumes "update s extracted = Inr s'" and "well_formed s"
  shows "tracked_identifiers s' = tracked_identifiers s"
proof -
  from update_cases [OF assms(1)] obtain u where
    c: "(active_unit_identifier s = Some (unit_identifier u) \<and>
       s' = s\<lparr>active_cell := Some (position_to_cell (cells s) (position u))\<rparr>) \<or>
      (active_unit_identifier s \<noteq> Some (unit_identifier u) \<and>
       (\<exists>s1. return_previous_active s = Inr s1 \<and>
          ((is_relevant_unit s1 u = Inr True \<and> track_new_active s1 u = Inr s') \<or>
           (is_relevant_unit s1 u = Inr False \<and>
            s' = s1\<lparr>active_unit_identifier := None, active_cell := None\<rparr>))))"
    by blast
  from c show ?thesis
  proof (elim disjE conjE exE)
    assume "s' = s\<lparr>active_cell := Some (position_to_cell (cells s) (position u))\<rparr>"
    then show ?thesis
      by (simp add: tracked_identifiers_def stored_identifiers_def yield_surplus_def)
  next
    fix s1
    assume r: "return_previous_active s = Inr s1" and t: "track_new_active s1 u = Inr s'"
    have "well_formed s1" using return_previous_active_well_formed [OF r assms(2)] .
    from track_new_active_stored [OF t this] track_new_active_active [OF t]
    have "tracked_identifiers s' = stored_identifiers s1"
      by (simp add: tracked_identifiers_def)
    with return_previous_active_stored [OF r] show ?thesis by simp
  next
    fix s1
    assume r: "return_previous_active s = Inr s1"
      and "s' = s1\<lparr>active_unit_identifier := None, active_cell := None\<rparr>"
    then have "tracked_identifiers s' = stored_identifiers s1"
      by (simp add: tracked_identifiers_def stored_identifiers_def yield_surplus_def)
    with return_previous_active_stored [OF r] show ?thesis by simp
  qed
qed

lemma updates_invariant:
  "updates s calls = Inr s' \<Longrightarrow> well_formed s \<Longrightarrow>
   well_formed s' \<and> tracked_identifiers s' = tracked_identifiers s \<and> same_configuration s s'"
proof (induction calls arbitrary: s)
  case Nil
  then show ?case by (simp add: same_configuration_refl)
next
  case (Cons c calls)
  from Cons.prems(1) obtain s1 where u: "update s c = Inr s1" and r: "updates s1 calls = Inr s'"
    by (cases "update s c") simp_all
  have wf1: "well_formed s1" using update_well_formed [OF u Cons.prems(2)] .
  from Cons.IH [OF r wf1] update_tracked [OF u Cons.prems(2)] update_configuration [OF u]
  show ?case by (auto intro: same_configuration_trans)
qed

lemma initialize_units_invariant:
  "initialize_units s units = Inr s' \<Longrightarrow> well_formed s \<Longrightarrow>
   well_formed s' \<and> same_configuration s s' \<and>
   active_unit_identifier s' = active_unit_identifier s \<and> active_cell s' = active_cell s \<and>
   stored_identifiers s' = stored_identifiers s +
     mset (map unit_identifier (filter (\<lambda>unit. is_relevant_unit s unit = Inr True) units))"
proof (induction units arbitrary: s)
  case Nil
  then show ?case by (simp add: same_configuration_refl)
next
  case (Cons u units)
  obtain r where r: "is_relevant_unit s u = Inr r"
    using Cons.prems(1) by (cases "is_relevant_unit s u") simp_all
  show ?case
  proof (cases r)
    case False
    with Cons.prems r have "initialize_units s units = Inr s'" by simp
    from Cons.IH [OF this Cons.prems(2)] r False show ?thesis by simp
  next
    case True
    with Cons.prems(1) r obtain s1 where
      st: "store_identifier s (position_to_cell (cells s) (position u)) (unit_identifier u) = Inr s1"
      and rest: "initialize_units s1 units = Inr s'"
      by (cases "store_identifier s (position_to_cell (cells s) (position u)) (unit_identifier u)")
         simp_all
    have wf1: "well_formed s1" using store_identifier_well_formed [OF st Cons.prems(2)] .
    have cfg: "same_configuration s s1" using store_identifier_configuration [OF st] .
    then have rel: "is_relevant_unit s1 = is_relevant_unit s"
      by (simp add: same_configuration_def)
    from Cons.IH [OF rest wf1] store_identifier_stored [OF st] store_identifier_active [OF st]
      cfg r True
    show ?thesis
      by (auto simp: rel intro: same_configuration_trans)
  qed
qed

lemma foldl_update_empty_values:
  "list_all (\<lambda>(c, l). l = []) al \<Longrightarrow>
   list_all (\<lambda>(c, l). l = []) (foldl (\<lambda>d cell. AList.update cell [] d) al cs)"
  by (induction cs arbitrary: al) (simp_all add: list_all_alist_update)

lemma concat_empty_values:
  "list_all (\<lambda>(c, l). l = []) al \<Longrightarrow> concat (map snd al) = []"
  by (induction al) auto

lemma list_all_weaken: "list_all P xs \<Longrightarrow> (\<And>x. P x \<Longrightarrow> Q x) \<Longrightarrow> list_all Q xs"
  by (induction xs) auto

lemma init_invariant:
  assumes "init number_of_node_levels cs level maximum ch = Inr s"
  shows "well_formed s \<and> stored_identifiers s = {#} \<and> active_unit_identifier s = None \<and>
    active_cell s = None \<and> maximum_number_occupants s = maximum \<and>
    number_occupants_not_bounded s = (maximum \<le> 0) \<and> cell_level s = level"
proof -
  let ?occ = "foldl (\<lambda>d cell. AList.update cell [] d) [] (yield_cells cs)"
  have e: "list_all (\<lambda>(c, l). l = []) ?occ"
    by (rule foldl_update_empty_values) simp
  have s: "s = \<lparr> cells = cs, cell_level = level, maximum_number_occupants = maximum,
                 number_occupants_not_bounded = (maximum \<le> 0),
                 surplus = [], occupants = ?occ, active_unit_identifier = None,
                 is_relevant_unit =
                   (case ch of Some c \<Rightarrow> charge_unequal_zero c | None \<Rightarrow> (\<lambda>unit. Inr True)),
                 active_cell = None \<rparr>"
    using assms by (simp add: init_def split: if_splits)
  have "list_all (\<lambda>(c, l). maximum \<le> 0 \<or> int (length l) \<le> maximum) ?occ"
    by (rule list_all_weaken [OF e]) auto
  then have "capacity_respected s"
    by (simp add: s capacity_respected_def)
  then show ?thesis
    using concat_empty_values [OF e]
    by (simp add: s well_formed_def stored_identifiers_def yield_surplus_def)
qed

subsection \<open>The claims\<close>

text \<open>
  C9: when the identifier of the new active unit equals the tracked active identifier,
  \<open>update\<close> only sets the active cell to the cell of the position of the unit; the
  occupants, the surplus, the active identifier and all other attributes stay as they are.
\<close>

theorem update_same_identifier:
  assumes "units_on_cell_level (cell_level s) extracted_active_global_state = [new_active_unit]"
    and "active_unit_identifier s = Some (unit_identifier new_active_unit)"
  shows "update s extracted_active_global_state =
           Inr (s\<lparr>active_cell := Some (position_to_cell (cells s) (position new_active_unit))\<rparr>)"
  using assms by (simp add: update_def)

theorem update_same_identifier_witness:
  "units_on_cell_level
     (cell_level (example_occupancy\<lparr>active_unit_identifier := Some [0], active_cell := Some 0\<rparr>))
     [Node (example_unit 0) []] = [example_unit 0]
   \<and> active_unit_identifier
       (example_occupancy\<lparr>active_unit_identifier := Some [0], active_cell := Some 0\<rparr>) =
       Some (unit_identifier (example_unit 0))
   \<and> update (example_occupancy\<lparr>active_unit_identifier := Some [0], active_cell := Some 0\<rparr>)
       [Node (example_unit 0) []] =
       Inr (example_occupancy\<lparr>active_unit_identifier := Some [0], active_cell := Some 0\<rparr>)"
  using update_same_identifier [of
      "example_occupancy\<lparr>active_unit_identifier := Some [0], active_cell := Some 0\<rparr>"
      "[Node (example_unit 0) []]" "example_unit 0"]
  by (simp add: units_on_cell_level_Nil units_on_cell_level_root example_occupancy_def example_unit_def example_cells_def)

text \<open>
  C6: a FinalTimeEndOfRunEventHandler with an end-of-run time that is not greater than
  zero (such as -1.0) is refused with a configuration error; with the end-of-run time
  1.0 the constructor succeeds and \<open>send_event_time\<close>, which takes no active unit, returns
  1.0.
\<close>

theorem final_time_handler:
  "(\<not> t > 0 \<longrightarrow> final_time_init t name =
      Inl (ConfigurationError ''The end_of_run_time in the event handler has to be > 0.0.''))
   \<and> (\<exists>h. final_time_init 1 name = Inr h \<and> final_time_send_event_time h = 1)"
  by (simp add: final_time_init_def final_time_send_event_time_def)

theorem final_time_handler_witness:
  "\<not> (-1::real) > 0 \<and> final_time_init (-1) None =
      Inl (ConfigurationError ''The end_of_run_time in the event handler has to be > 0.0.'')
   \<and> (\<exists>h. final_time_init 1 None = Inr h \<and> final_time_send_event_time h = 1)"
  using final_time_handler [of "-1" None] by simp

text \<open>
  C5: \<open>send_out_state\<close> of the LeafUnitCellVetoEventHandler with \<open>None\<close> returns the
  stored state as an ordinary result and leaves every attribute of the handler as it is.
\<close>

theorem send_out_state_None:
  "leaf_unit_cell_veto_send_out_state separation_vector calculate_out_state h None =
     Inr (state h, h)"
  by (simp add: leaf_unit_cell_veto_send_out_state_def)

text \<open>
  C7: with a charge and a cell level below the number of node levels the constructor of
  SingleActiveCellOccupancy raises its configuration error, and with a charge and a
  potential that does not expect exactly two charges the constructor of
  LeafUnitCellVetoEventHandler raises its configuration error; without a charge both
  constructors succeed.
\<close>

theorem charge_configuration_errors:
  "(level < number_of_node_levels \<longrightarrow>
      init number_of_node_levels cs level maximum (Some c) = Inl (ConfigurationError
        ''Chosen cell level stores composite point objects which cannot have a charge!''))
   \<and> (n \<noteq> 2 \<longrightarrow>
      leaf_unit_cell_veto_init n (Some c) = Inl (ConfigurationError
        ''The event handler was initialized with a charge which is not None, but its potential expects not exactly 2 charges.''))
   \<and> (\<exists>s. init number_of_node_levels cs level maximum None = Inr s)
   \<and> (\<exists>h. leaf_unit_cell_veto_init n None = Inr h)"
  by (simp add: init_def leaf_unit_cell_veto_init_def)

theorem charge_configuration_errors_witness:
  "(1::int) < 2 \<and> init 2 example_cells 1 1 (Some ''charge'') = Inl (ConfigurationError
        ''Chosen cell level stores composite point objects which cannot have a charge!'')
   \<and> (3::int) \<noteq> 2 \<and> leaf_unit_cell_veto_init 3 (Some ''charge'') = Inl (ConfigurationError
        ''The event handler was initialized with a charge which is not None, but its potential expects not exactly 2 charges.'')
   \<and> (\<exists>s. init 2 example_cells 1 1 None = Inr s)
   \<and> (\<exists>h. leaf_unit_cell_veto_init 3 None = Inr h)"
  using charge_configuration_errors [where level = 1 and number_of_node_levels = 2 and n = 3
      and cs = example_cells and maximum = 1 and c = "''charge''"] by simp

lemma updates_example:
  "updates example_occupancy [[Node (example_unit 0) []]] =
     Inr (example_occupancy\<lparr>occupants := [(0, [])], active_unit_identifier := Some [0],
        active_cell := Some 0\<rparr>)"
  by (simp add: update_example)

lemma relevant_identifiers_example:
  "relevant_identifiers (example_occupancy\<lparr>surplus := [], occupants := [(0, [])]\<rparr>)
     example_global_state = [[0], [1], [2]]"
  by (simp add: relevant_identifiers_def example_global_state_def example_occupancy_def example_unit_def
      units_on_cell_level_Nil units_on_cell_level_root)

lemma init_unbounded:
  "init 1 example_cells 1 0 None = Inr (example_unbounded\<lparr>occupants := [(0, [])]\<rparr>)"
  by (simp add: init_def example_cells_def example_occupancy_def example_unbounded_def)

lemma initialize_unbounded:
  "initialize (example_unbounded\<lparr>occupants := [(0, [])]\<rparr>)
     example_global_state = Inr example_unbounded"
  by (simp add: initialize_def example_global_state_def example_occupancy_def example_unbounded_def example_cells_def
      example_unit_def store_identifier_def units_on_cell_level_Nil units_on_cell_level_root)

lemma updates_unbounded:
  "updates example_unbounded [[Node (example_unit 0) []]] =
     Inr (example_unbounded\<lparr>occupants := [(0, [[1], [2]])], active_unit_identifier := Some [0],
        active_cell := Some 0\<rparr>)"
  by (simp add: units_on_cell_level_Nil units_on_cell_level_root update_def
      example_occupancy_def example_unbounded_def example_cells_def example_unit_def
      return_previous_active_def track_new_active_def remove_new_active_def
      surplus_get_True_def Let_def)

lemma relevant_identifiers_unbounded:
  "relevant_identifiers (example_unbounded\<lparr>occupants := [(0, [])]\<rparr>)
     example_global_state = [[0], [1], [2]]"
  by (simp add: relevant_identifiers_def example_global_state_def example_occupancy_def example_unbounded_def
      example_unit_def units_on_cell_level_Nil units_on_cell_level_root)

lemma reachable_invariant:
  assumes "init number_of_node_levels cs level maximum ch = Inr s0"
    and "initialize s0 extracted_global_state = Inr s1"
    and "updates s1 calls = Inr s"
  shows "well_formed s \<and> maximum_number_occupants s = maximum \<and>
     number_occupants_not_bounded s = (maximum \<le> 0) \<and>
     tracked_identifiers s = mset (relevant_identifiers s0 extracted_global_state)"
proof -
  note i = init_invariant [OF assms(1)]
  from i have wf0: "well_formed s0" by simp
  have iu: "initialize_units s0 (units_on_cell_level (cell_level s0) extracted_global_state) = Inr s1"
    using assms(2) by (simp add: initialize_def)
  note j = initialize_units_invariant [OF iu wf0]
  from j have wf1: "well_formed s1" by simp
  note k = updates_invariant [OF assms(3) wf1]
  have "tracked_identifiers s1 = mset (relevant_identifiers s0 extracted_global_state)"
    using i j by (simp add: tracked_identifiers_def relevant_identifiers_def)
  with k have "tracked_identifiers s = mset (relevant_identifiers s0 extracted_global_state)"
    by simp
  moreover have "maximum_number_occupants s = maximum"
    "number_occupants_not_bounded s = (maximum \<le> 0)"
    using i j k by (simp_all add: same_configuration_def)
  ultimately show ?thesis using k by simp
qed

text \<open>
  C2: in every state reached from the constructor by \<open>initialize\<close> and a sequence of
  \<open>update\<close> calls that return, with a positive maximum number of occupants every
  occupants list has at most that length; the multiset of the identifiers in all
  occupants lists, all surplus lists and the active identifier equals the multiset of
  the identifiers of the relevant units of the initial global state; and with a maximum
  smaller than or equal to zero there is no surplus.
\<close>

theorem capacity_invariant:
  assumes "init number_of_node_levels cs level maximum ch = Inr s0"
    and "initialize s0 extracted_global_state = Inr s1"
    and "updates s1 calls = Inr s"
  shows "(0 < maximum \<longrightarrow>
           list_all (\<lambda>(cell, occ). int (length occ) \<le> maximum) (occupants s))
     \<and> tracked_identifiers s = mset (relevant_identifiers s0 extracted_global_state)
     \<and> (maximum \<le> 0 \<longrightarrow> surplus s = [] \<and> yield_surplus s = [])"
proof -
  note r = reachable_invariant [OF assms]
  have "0 < maximum \<longrightarrow>
           list_all (\<lambda>(cell, occ). int (length occ) \<le> maximum) (occupants s)"
    using r by (auto simp: well_formed_def capacity_respected_def)
  moreover have "maximum \<le> 0 \<longrightarrow> surplus s = [] \<and> yield_surplus s = []"
    using r by (auto simp: well_formed_def yield_surplus_def)
  ultimately show ?thesis using r by simp
qed

theorem capacity_invariant_witness:
  "init 1 example_cells 1 1 None = Inr (example_occupancy\<lparr>surplus := [], occupants := [(0, [])]\<rparr>)
   \<and> initialize (example_occupancy\<lparr>surplus := [], occupants := [(0, [])]\<rparr>)
       example_global_state = Inr example_occupancy
   \<and> updates example_occupancy [[Node (example_unit 0) []]] =
       Inr (example_occupancy\<lparr>occupants := [(0, [])], active_unit_identifier := Some [0],
          active_cell := Some 0\<rparr>)
   \<and> list_all (\<lambda>(cell, occ). int (length occ) \<le> 1)
       (occupants (example_occupancy\<lparr>occupants := [(0, [])],
          active_unit_identifier := Some [0], active_cell := Some 0\<rparr>))
   \<and> tracked_identifiers (example_occupancy\<lparr>occupants := [(0, [])],
          active_unit_identifier := Some [0], active_cell := Some 0\<rparr>) = {#[0], [1], [2]#}
   \<and> init 1 example_cells 1 0 None = Inr (example_unbounded\<lparr>occupants := [(0, [])]\<rparr>)
   \<and> initialize (example_unbounded\<lparr>occupants := [(0, [])]\<rparr>)
       example_global_state = Inr example_unbounded
   \<and> updates example_unbounded [[Node (example_unit 0) []]] =
       Inr (example_unbounded\<lparr>occupants := [(0, [[1], [2]])],
          active_unit_identifier := Some [0], active_cell := Some 0\<rparr>)
   \<and> yield_surplus (example_unbounded\<lparr>occupants := [(0, [[1], [2]])],
          active_unit_identifier := Some [0], active_cell := Some 0\<rparr>) = []"
proof -
  have "tracked_identifiers (example_occupancy\<lparr>occupants := [(0, [])],
          active_unit_identifier := Some [0], active_cell := Some 0\<rparr>) = {#[0], [1], [2]#}
     \<and> list_all (\<lambda>(cell, occ). int (length occ) \<le> 1)
       (occupants (example_occupancy\<lparr>occupants := [(0, [])],
          active_unit_identifier := Some [0], active_cell := Some 0\<rparr>))"
    using capacity_invariant [OF init_example initialize_example updates_example]
    by (simp add: relevant_identifiers_example)
  moreover have "yield_surplus (example_unbounded\<lparr>occupants := [(0, [[1], [2]])],
          active_unit_identifier := Some [0], active_cell := Some 0\<rparr>) = []"
    using capacity_invariant [OF init_unbounded initialize_unbounded updates_unbounded]
    by simp
  ultimately show ?thesis
    by (simp only: init_example initialize_example updates_example
        init_unbounded initialize_unbounded updates_unbounded simp_thms)
qed

lemma map_of_subset_concat:
  "map_of al k = Some v \<Longrightarrow> set v \<subseteq> set (concat (map snd al))"
  by (induction al) (auto split: if_splits)

text \<open>
  C3: in every state reached from the constructor by \<open>initialize\<close> on a global state
  whose relevant identifiers are distinct and a sequence of \<open>update\<close> calls that return,
  the active identifier is in no occupants list and in no surplus list; \<open>__getitem__\<close>
  returns it for no cell and \<open>yield_surplus\<close> does not generate it.
\<close>

theorem active_identifier_exclusive:
  assumes "init number_of_node_levels cs level maximum ch = Inr s0"
    and "initialize s0 extracted_global_state = Inr s1"
    and "updates s1 calls = Inr s"
    and "distinct (relevant_identifiers s0 extracted_global_state)"
    and "active_unit_identifier s = Some a"
  shows "a \<notin> set (concat (map snd (occupants s))) \<and> a \<notin> set (yield_surplus s) \<and>
     (\<forall>cell occ. getitem s cell = Inr occ \<longrightarrow> a \<notin> set occ)"
proof -
  note r = reachable_invariant [OF assms(1,2,3)]
  have "count (tracked_identifiers s) a \<le> 1"
    using r assms(4) by (simp add: distinct_count_atmost_1)
  moreover have "tracked_identifiers s = add_mset a (stored_identifiers s)"
    using assms(5) by (simp add: tracked_identifiers_def)
  ultimately have "count (stored_identifiers s) a = 0" by simp
  then have n: "a \<notin> set (concat (map snd (occupants s)))" "a \<notin> set (yield_surplus s)"
    by (simp_all add: stored_identifiers_def count_eq_zero_iff)
  have "a \<notin> set occ" if "getitem s cell = Inr occ" for cell occ
  proof -
    from that have "map_of (occupants s) cell = Some occ"
      by (simp add: getitem_def split: option.splits)
    from map_of_subset_concat [OF this] n(1) show ?thesis by auto
  qed
  with n show ?thesis by blast
qed

theorem active_identifier_exclusive_witness:
  "init 1 example_cells 1 1 None = Inr (example_occupancy\<lparr>surplus := [], occupants := [(0, [])]\<rparr>)
   \<and> initialize (example_occupancy\<lparr>surplus := [], occupants := [(0, [])]\<rparr>)
       example_global_state = Inr example_occupancy
   \<and> updates example_occupancy [[Node (example_unit 0) []]] =
       Inr (example_occupancy\<lparr>occupants := [(0, [])], active_unit_identifier := Some [0],
          active_cell := Some 0\<rparr>)
   \<and> distinct (relevant_identifiers (example_occupancy\<lparr>surplus := [], occupants := [(0, [])]\<rparr>)
       example_global_state)
   \<and> [0] \<notin> set (yield_surplus (example_occupancy\<lparr>occupants := [(0, [])],
          active_unit_identifier := Some [0], active_cell := Some 0\<rparr>))
   \<and> [0] \<notin> set (concat (map snd (occupants (example_occupancy\<lparr>occupants := [(0, [])],
          active_unit_identifier := Some [0], active_cell := Some 0\<rparr>))))"
proof -
  have d: "distinct (relevant_identifiers
      (example_occupancy\<lparr>surplus := [], occupants := [(0, [])]\<rparr>) example_global_state)"
    by (simp add: relevant_identifiers_example)
  have a: "active_unit_identifier (example_occupancy\<lparr>occupants := [(0, [])],
          active_unit_identifier := Some [0], active_cell := Some 0\<rparr>) = Some [0]"
    by simp
  from active_identifier_exclusive [OF init_example initialize_example updates_example d a]
  show ?thesis
    by (simp only: init_example initialize_example updates_example d simp_thms)
qed

text \<open>
  C10: after the constructor and \<open>initialize\<close>, before any \<open>update\<close>, there is no
  active identifier and no active cell, \<open>yield_active_cells\<close> generates nothing, and
  the identifier of every relevant unit is in the occupants or the surplus, whether or
  not units of the global state carry a velocity.
\<close>

theorem initialized_without_active:
  assumes "init number_of_node_levels cs level maximum ch = Inr s0"
    and "initialize s0 extracted_global_state = Inr s"
  shows "active_unit_identifier s = None \<and> active_cell s = None \<and> yield_active_cells s = [] \<and>
     stored_identifiers s = mset (relevant_identifiers s0 extracted_global_state) \<and>
     set (relevant_identifiers s0 extracted_global_state) \<subseteq>
       set (concat (map snd (occupants s))) \<union> set (yield_surplus s)"
proof -
  note i = init_invariant [OF assms(1)]
  from i have wf0: "well_formed s0" by simp
  have iu: "initialize_units s0 (units_on_cell_level (cell_level s0) extracted_global_state) = Inr s"
    using assms(2) by (simp add: initialize_def)
  note j = initialize_units_invariant [OF iu wf0]
  have st: "stored_identifiers s = mset (relevant_identifiers s0 extracted_global_state)"
    using i j by (simp add: relevant_identifiers_def)
  then have "set_mset (stored_identifiers s) =
      set (relevant_identifiers s0 extracted_global_state)"
    by simp
  then have "set (relevant_identifiers s0 extracted_global_state) \<subseteq>
       set (concat (map snd (occupants s))) \<union> set (yield_surplus s)"
    by (simp add: stored_identifiers_def)
  then show ?thesis
    using i j st by (simp add: yield_active_cells_def)
qed

lemma initialize_moving:
  "initialize (example_occupancy\<lparr>surplus := [], occupants := [(0, [])]\<rparr>)
     example_moving_state =
     Inr (example_occupancy\<lparr>surplus := [(0, [[1]])]\<rparr>)"
  by (simp add: initialize_def example_moving_state_def example_occupancy_def
      example_cells_def example_unit_def example_moving_unit_def store_identifier_def
      units_on_cell_level_Nil units_on_cell_level_root)

theorem initialized_without_active_witness:
  "init 1 example_cells 1 1 None = Inr (example_occupancy\<lparr>surplus := [], occupants := [(0, [])]\<rparr>)
   \<and> initialize (example_occupancy\<lparr>surplus := [], occupants := [(0, [])]\<rparr>)
       example_moving_state = Inr (example_occupancy\<lparr>surplus := [(0, [[1]])]\<rparr>)
   \<and> velocity (example_moving_unit 0) = Some [1]
   \<and> active_unit_identifier (example_occupancy\<lparr>surplus := [(0, [[1]])]\<rparr>) = None
   \<and> yield_active_cells (example_occupancy\<lparr>surplus := [(0, [[1]])]\<rparr>) = []
   \<and> stored_identifiers (example_occupancy\<lparr>surplus := [(0, [[1]])]\<rparr>) = {#[0], [1]#}"
proof -
  have r: "relevant_identifiers (example_occupancy\<lparr>surplus := [], occupants := [(0, [])]\<rparr>)
      example_moving_state = [[0], [1]]"
    by (simp add: relevant_identifiers_def example_moving_state_def example_occupancy_def
        example_unit_def example_moving_unit_def
        units_on_cell_level_Nil units_on_cell_level_root)
  have v: "velocity (example_moving_unit 0) = Some [1]"
    by (simp add: example_moving_unit_def)
  from initialized_without_active [OF init_example initialize_moving]
  have "active_unit_identifier (example_occupancy\<lparr>surplus := [(0, [[1]])]\<rparr>) = None
   \<and> yield_active_cells (example_occupancy\<lparr>surplus := [(0, [[1]])]\<rparr>) = []
   \<and> stored_identifiers (example_occupancy\<lparr>surplus := [(0, [[1]])]\<rparr>) = {#[0], [1]#}"
    by (simp add: r)
  then show ?thesis
    by (simp only: init_example initialize_moving v simp_thms)
qed

lemma store_identifier_no_assertion: "store_identifier s cell ident \<noteq> Inl AssertionError"
  by (simp add: store_identifier_def split: option.splits)

lemma return_previous_active_no_assertion: "return_previous_active s \<noteq> Inl AssertionError"
  by (simp add: return_previous_active_def store_identifier_no_assertion split: option.splits)

lemma remove_new_active_no_assertion: "remove_new_active s cell ident \<noteq> Inl AssertionError"
proof (cases "map_of (occupants s) cell")
  case None
  then show ?thesis by (simp add: remove_new_active_def)
next
  case (Some occ)
  show ?thesis
  proof (cases "ident \<in> set occ")
    case True
    show ?thesis
      unfolding remove_new_active_present [OF Some True] by simp
  next
    case False
    show ?thesis
      unfolding remove_new_active_absent [OF Some False] by (simp split: option.splits)
  qed
qed

lemma track_new_active_no_assertion: "track_new_active s u \<noteq> Inl AssertionError"
proof -
  let ?cell = "position_to_cell (cells s) (position u)"
  let ?s1 = "s\<lparr>active_cell := Some ?cell, active_unit_identifier := Some (unit_identifier u)\<rparr>"
  show ?thesis
  proof (cases "remove_new_active ?s1 ?cell (unit_identifier u)")
    case (Inl e)
    with remove_new_active_no_assertion [of ?s1 ?cell "unit_identifier u"]
    show ?thesis by (simp add: track_new_active_def Let_def)
  next
    case (Inr s2)
    then show ?thesis by (simp add: track_new_active_def Let_def)
  qed
qed

lemma remove_new_active_keeps_surplus:
  assumes "remove_new_active s cell ident = Inr s'"
    and "map_of (occupants s) cell = Some occ" and "ident \<in> set occ"
  shows "surplus s' = surplus s \<and>
         occupants s' = AList.update cell (remove1 ident occ) (occupants s)"
  using assms(1) unfolding remove_new_active_present [OF assms(2,3)]
  by (auto split: if_splits)

lemma charge_unequal_zero_no_assertion: "charge_unequal_zero c unit \<noteq> Inl AssertionError"
  by (simp add: charge_unequal_zero_def split: option.splits)

lemma init_charged:
  "init 1 example_cells 1 1 (Some ''charge'') =
     Inr (example_charged_occupancy\<lparr>occupants := [(0, [])]\<rparr>)"
  by (simp add: init_def example_cells_def example_occupancy_def example_charged_occupancy_def)

lemma initialize_charged:
  "initialize (example_charged_occupancy\<lparr>occupants := [(0, [])]\<rparr>) example_charged_state =
     Inr example_charged_occupancy"
  by (simp add: initialize_def example_charged_state_def example_charged_occupancy_def
      example_occupancy_def example_cells_def example_unit_def example_charged_unit_def
      store_identifier_def charge_unequal_zero_def
      units_on_cell_level_Nil units_on_cell_level_root)

text \<open>
  C4, as stated, fails for an occupancy with a charge filter: an active state whose only
  unit on the cell level has charge zero holds no relevant unit, and \<open>update\<close> returns
  (with the active slot cleared); an active state with a charged and an uncharged unit on
  the cell level holds exactly one relevant unit, and \<open>update\<close> fails its assertion.
\<close>

theorem update_assertion_counterexample:
  "init 1 example_cells 1 1 (Some ''charge'') =
     Inr (example_charged_occupancy\<lparr>occupants := [(0, [])]\<rparr>)
   \<and> initialize (example_charged_occupancy\<lparr>occupants := [(0, [])]\<rparr>) example_charged_state =
     Inr example_charged_occupancy
   \<and> filter (\<lambda>unit. is_relevant_unit example_charged_occupancy unit = Inr True)
       (units_on_cell_level (cell_level example_charged_occupancy)
          [Node (example_charged_unit 0 0) []]) = []
   \<and> update example_charged_occupancy [Node (example_charged_unit 0 0) []] =
       Inr example_charged_occupancy
   \<and> filter (\<lambda>unit. is_relevant_unit example_charged_occupancy unit = Inr True)
       (units_on_cell_level (cell_level example_charged_occupancy) example_charged_state) =
       [example_charged_unit 1 1]
   \<and> update example_charged_occupancy example_charged_state = Inl AssertionError"
proof -
  have "filter (\<lambda>unit. is_relevant_unit example_charged_occupancy unit = Inr True)
       (units_on_cell_level (cell_level example_charged_occupancy)
          [Node (example_charged_unit 0 0) []]) = []"
    by (simp add: example_charged_occupancy_def example_occupancy_def example_unit_def
        example_charged_unit_def charge_unequal_zero_def
        units_on_cell_level_Nil units_on_cell_level_root)
  moreover have "update example_charged_occupancy [Node (example_charged_unit 0 0) []] =
       Inr example_charged_occupancy"
    by (simp add: update_def return_previous_active_def
        example_charged_occupancy_def example_occupancy_def example_unit_def
        example_charged_unit_def charge_unequal_zero_def
        units_on_cell_level_Nil units_on_cell_level_root)
  moreover have "filter (\<lambda>unit. is_relevant_unit example_charged_occupancy unit = Inr True)
       (units_on_cell_level (cell_level example_charged_occupancy) example_charged_state) =
       [example_charged_unit 1 1]"
    by (simp add: example_charged_occupancy_def example_occupancy_def example_unit_def
        example_charged_state_def example_charged_unit_def charge_unequal_zero_def
        units_on_cell_level_Nil units_on_cell_level_root)
  moreover have "update example_charged_occupancy example_charged_state = Inl AssertionError"
    by (simp add: update_def example_charged_occupancy_def example_occupancy_def
        example_charged_state_def units_on_cell_level_Nil units_on_cell_level_root)
  ultimately show ?thesis
    by (simp only: init_charged initialize_charged simp_thms)
qed

text \<open>
  C4, amended: \<open>update\<close> fails with an assertion error exactly when the number of units
  on the cell level of the extracted active global state, counted before and
  independently of the relevance predicate, is not one (the relevance predicate itself
  raising no assertion error).
\<close>

theorem update_assertion:
  assumes "\<forall>unit. is_relevant_unit s unit \<noteq> Inl AssertionError"
  shows "update s extracted_active_global_state = Inl AssertionError \<longleftrightarrow>
         length (units_on_cell_level (cell_level s) extracted_active_global_state) \<noteq> 1"
proof (cases "units_on_cell_level (cell_level s) extracted_active_global_state")
  case Nil
  then show ?thesis by (simp add: update_def)
next
  case (Cons u rest)
  show ?thesis
  proof (cases rest)
    case (Cons v rest')
    with \<open>units_on_cell_level (cell_level s) extracted_active_global_state = u # rest\<close>
    show ?thesis by (simp add: update_def)
  next
    case Nil
    with Cons have units: "units_on_cell_level (cell_level s) extracted_active_global_state = [u]"
      by simp
    have "update s extracted_active_global_state \<noteq> Inl AssertionError"
    proof (cases "Some (unit_identifier u) = active_unit_identifier s")
      case True
      then show ?thesis using units by (simp add: update_def)
    next
      case False
      show ?thesis
      proof (cases "return_previous_active s")
        case (Inl e)
        with return_previous_active_no_assertion [of s] False units
        show ?thesis by (simp add: update_def)
      next
        case (Inr s1)
        from return_previous_active_configuration [OF Inr]
        have rel: "is_relevant_unit s1 = is_relevant_unit s"
          by (simp add: same_configuration_def)
        show ?thesis
        proof (cases "is_relevant_unit s u")
          case (Inl e)
          with assms have "e \<noteq> AssertionError" by auto
          with Inl Inr rel False units show ?thesis by (simp add: update_def)
        next
          case r: (Inr relevant)
          with Inr rel False units track_new_active_no_assertion [of s1 u]
          show ?thesis by (simp add: update_def)
        qed
      qed
    qed
    with units show ?thesis by simp
  qed
qed

theorem update_assertion_witness:
  "(\<forall>unit. is_relevant_unit example_charged_occupancy unit \<noteq> Inl AssertionError)
   \<and> length (units_on_cell_level (cell_level example_charged_occupancy) []) = 0
   \<and> update example_charged_occupancy [] = Inl AssertionError
   \<and> length (units_on_cell_level (cell_level example_charged_occupancy)
        [Node (example_charged_unit 0 0) []]) = 1
   \<and> update example_charged_occupancy [Node (example_charged_unit 0 0) []] \<noteq>
        Inl AssertionError"
proof -
  have h: "\<forall>unit. is_relevant_unit example_charged_occupancy unit \<noteq> Inl AssertionError"
    by (simp add: example_charged_occupancy_def charge_unequal_zero_no_assertion)
  have l0: "length (units_on_cell_level (cell_level example_charged_occupancy) []) = 0"
    by (simp add: units_on_cell_level_Nil)
  have l1: "length (units_on_cell_level (cell_level example_charged_occupancy)
        [Node (example_charged_unit 0 0) []]) = 1"
    by (simp add: example_charged_occupancy_def example_occupancy_def
        units_on_cell_level_Nil units_on_cell_level_root)
  from update_assertion [OF h, of "[]"] l0
  have a0: "update example_charged_occupancy [] = Inl AssertionError" by simp
  from update_assertion [OF h, of "[Node (example_charged_unit 0 0) []]"] l1
  have a1: "update example_charged_occupancy [Node (example_charged_unit 0 0) []] \<noteq>
        Inl AssertionError" by simp
  from h l0 a0 l1 a1 show ?thesis by blast
qed

text \<open>
  C1: the code does not promote. With one occupant per cell and the three units of the
  example in cell 0, the occupants of cell 0 are the first unit and its surplus the two
  others; after \<open>update\<close> with the first unit as the new active unit the occupants list
  of cell 0 is empty and the surplus still holds both other identifiers.
\<close>

theorem promotion_not_performed:
  "init 1 example_cells 1 1 None =
     Inr (example_occupancy\<lparr>surplus := [], occupants := [(0, [])]\<rparr>)
   \<and> initialize (example_occupancy\<lparr>surplus := [], occupants := [(0, [])]\<rparr>)
       example_global_state = Inr example_occupancy
   \<and> occupants example_occupancy = [(0, [[0]])]
   \<and> surplus example_occupancy = [(0, [[1], [2]])]
   \<and> is_relevant_unit example_occupancy (example_unit 0) = Inr True
   \<and> update example_occupancy [Node (example_unit 0) []] =
       Inr (example_occupancy\<lparr>occupants := [(0, [])], active_unit_identifier := Some [0],
          active_cell := Some 0\<rparr>)
   \<and> surplus (example_occupancy\<lparr>occupants := [(0, [])], active_unit_identifier := Some [0],
          active_cell := Some 0\<rparr>) = [(0, [[1], [2]])]"
  by (simp add: init_example initialize_example update_example)
     (simp add: example_occupancy_def)

text \<open>
  C8: after a \<open>send_event_time\<close> call of the end-of-chain handler has returned the
  candidate time \<open>t\<close>, a further call with an active unit whose time stamp is smaller
  than \<open>t\<close> or greater than \<open>t\<close> plus the chain time fails with an assertion error; with
  a time stamp in the closed interval it returns the next candidate time.
\<close>

theorem time_stamp_contract:
  assumes "end_of_chain_send_event_time h in_state sampled = Inr ((t, nominated), h')"
    and "time_stamp unit = Some stamp"
  shows "(stamp < t \<or> t + chain_time h' < stamp \<longrightarrow>
            end_of_chain_send_event_time h' [Node unit cs] sampled' = Inl AssertionError)
       \<and> (t \<le> stamp \<and> stamp \<le> t + chain_time h' \<longrightarrow>
            end_of_chain_send_event_time h' [Node unit cs] sampled' =
              Inr ((t + chain_time h', [[sampled']]),
                   h'\<lparr>candidate_time := t + chain_time h'\<rparr>))"
proof -
  have "candidate_time h' = t"
    using assms(1)
    by (auto simp: end_of_chain_send_event_time_def Let_def
        split: list.splits option.splits if_splits)
  then show ?thesis
    using assms(2) by (auto simp: end_of_chain_send_event_time_def Let_def)
qed

theorem time_stamp_contract_witness:
  "end_of_chain_init (7 / 10) = Inr \<lparr> chain_time = 7 / 10, candidate_time = 0 \<rparr>
   \<and> end_of_chain_send_event_time \<lparr> chain_time = 7 / 10, candidate_time = 0 \<rparr>
        [Node (example_stamped_unit 0 0) []] [4] =
        Inr ((7 / 10, [[[4]]]), \<lparr> chain_time = 7 / 10, candidate_time = 7 / 10 \<rparr>)
   \<and> end_of_chain_send_event_time \<lparr> chain_time = 7 / 10, candidate_time = 7 / 10 \<rparr>
        [Node (example_stamped_unit 5 (7 / 10 - 1 / 10 ^ 13)) []] [6] = Inl AssertionError
   \<and> end_of_chain_send_event_time \<lparr> chain_time = 7 / 10, candidate_time = 7 / 10 \<rparr>
        [Node (example_stamped_unit 5 (14 / 10 + 1 / 10 ^ 13)) []] [6] = Inl AssertionError
   \<and> end_of_chain_send_event_time \<lparr> chain_time = 7 / 10, candidate_time = 7 / 10 \<rparr>
        [Node (example_stamped_unit 5 (7 / 10)) []] [6] =
        Inr ((14 / 10, [[[6]]]), \<lparr> chain_time = 7 / 10, candidate_time = 14 / 10 \<rparr>)"
proof -
  have i: "end_of_chain_init (7 / 10) = Inr \<lparr> chain_time = 7 / 10, candidate_time = 0 \<rparr>"
    by (simp add: end_of_chain_init_def)
  have f: "end_of_chain_send_event_time \<lparr> chain_time = 7 / 10, candidate_time = 0 \<rparr>
        [Node (example_stamped_unit 0 0) []] [4] =
        Inr ((7 / 10, [[[4]]]), \<lparr> chain_time = 7 / 10, candidate_time = 7 / 10 \<rparr>)"
    by (simp add: end_of_chain_send_event_time_def example_stamped_unit_def Let_def)
  have s: "time_stamp (example_stamped_unit 5 x) = Some x" for x
    by (simp add: example_stamped_unit_def)
  from time_stamp_contract [OF f s, of "7 / 10 - 1 / 10 ^ 13" "[]" "[6]"]
  have a: "end_of_chain_send_event_time \<lparr> chain_time = 7 / 10, candidate_time = 7 / 10 \<rparr>
        [Node (example_stamped_unit 5 (7 / 10 - 1 / 10 ^ 13)) []] [6] = Inl AssertionError"
    by simp
  from time_stamp_contract [OF f s, of "14 / 10 + 1 / 10 ^ 13" "[]" "[6]"]
  have b: "end_of_chain_send_event_time \<lparr> chain_time = 7 / 10, candidate_time = 7 / 10 \<rparr>
        [Node (example_stamped_unit 5 (14 / 10 + 1 / 10 ^ 13)) []] [6] = Inl AssertionError"
    by simp
  from time_stamp_contract [OF f s, of "7 / 10" "[]" "[6]"]
  have c: "end_of_chain_send_event_time \<lparr> chain_time = 7 / 10, candidate_time = 7 / 10 \<rparr>
        [Node (example_stamped_unit 5 (7 / 10)) []] [6] =
        Inr ((14 / 10, [[[6]]]), \<lparr> chain_time = 7 / 10, candidate_time = 14 / 10 \<rparr>)"
    by simp
  from i f a b c show ?thesis by (simp only: simp_thms)
qed

end
